theory Spec2Isabelle
  imports Complex_Main
begin

section \<open>Configuration\<close>

text \<open>
  The notebook \<^verbatim>\<open>single_process_unit.ipynb\<close> assigns its configuration as module-level
  constants (cell 3, under the comment \<^verbatim>\<open># Assign variance values, measurement value
  and variable limits\<close>).  Every later cell reads them, so the model passes them around as
  a record.  Python floats and numpy's \<^verbatim>\<open>float64\<close> are modelled by the real numbers:
  rounding is not part of the model.
\<close>

record config =
  sig :: real
  sig_e :: real
  y :: real
  a_1 :: real
  a_2 :: real
  a_3 :: real
  b_1 :: real
  b_2 :: real
  b_3 :: real
  grid_pts :: nat

definition notebook :: config where
  "notebook = \<lparr> sig = 1/10, sig_e = 1/10000, y = 3/2,
      a_1 = 0, a_2 = 0, a_3 = 0, b_1 = 3, b_2 = 3, b_3 = 3, grid_pts = 100 \<rparr>"

section \<open>The log posterior of the sampler\<close>

text \<open>
  \<^verbatim>\<open>
  def log_prob(par):
      if sum( (np.array(par)>0)&(np.array(par)<3) )==3:
          prob = -((y-par[0])**2)/(2*sig) + -((0-par[0]+par[1]+par[2])**2)/(2*sig_e)
      else:
          prob = -1e+120
      return prob
  \<close>
  The test counts the entries of \<^verbatim>\<open>par\<close> that lie strictly between the literals 0 and 3
  and compares the count with 3.  A count of 3 needs at least three entries, so the
  indexing \<^verbatim>\<open>par[0..2]\<close> in the first branch cannot raise.  A division of Python floats
  by zero raises \<^verbatim>\<open>ZeroDivisionError\<close>; the first division is evaluated first.  (With
  numpy scalars the same division gives inf or nan under a warning, neither of which is
  a real number; the model reports that case as the same error.)  Python's \<^verbatim>\<open>**\<close> on
  floats raises \<^verbatim>\<open>OverflowError\<close> when the square leaves the float range (a residual
  above about \<open>1.3e154\<close>); the reals have no such limit, and the model is the code for
  values within the float range only.
\<close>

datatype pyerror = ZeroDivisionError | ValueError

definition in_range_count :: "real list \<Rightarrow> nat" where
  "in_range_count par = sum_list (map (\<lambda>x. if 0 < x \<and> x < 3 then 1 else 0) par)"

definition sentinel :: real where
  "sentinel = - (10 ^ 120)"

definition log_prob :: "config \<Rightarrow> real list \<Rightarrow> pyerror + real" where
  "log_prob c par =
     (if in_range_count par = 3 then
        (if 2 * sig c = 0 \<or> 2 * sig_e c = 0 then Inl ZeroDivisionError
         else Inr (- ((y c - par ! 0) ^ 2) / (2 * sig c)
                   + - ((0 - par ! 0 + par ! 1 + par ! 2) ^ 2) / (2 * sig_e c)))
      else Inr sentinel)"

section \<open>Random draws and numpy's logarithm\<close>

text \<open>
  numpy's generator returns raw draws in the half-open interval \<open>[0.0, 1.0)\<close>;
  \<^verbatim>\<open>np.random.uniform(low, high)\<close> is \<^verbatim>\<open>low + (high - low) * raw\<close>.  A run of the notebook is
  modelled for a given sequence of raw draws: \<open>rng k\<close> is the \<open>k\<close>-th raw draw.
\<close>

definition raw_draw :: "real \<Rightarrow> bool" where
  "raw_draw r = (0 \<le> r \<and> r < 1)"

definition np_random_uniform :: "real \<Rightarrow> real \<Rightarrow> real \<Rightarrow> real" where
  "np_random_uniform low high r = low + (high - low) * r"

text \<open>
  \<^verbatim>\<open>np.log(0.0)\<close> is \<^verbatim>\<open>-inf\<close> (with a warning, no exception), and \<^verbatim>\<open>-inf < r\<close> holds for
  every finite \<open>r\<close>; the logarithm of a negative number is \<^verbatim>\<open>nan\<close>, and every comparison
  with \<^verbatim>\<open>nan\<close> is false.
\<close>

datatype npfloat = NegInf | Finite real | NaN

definition np_log :: "real \<Rightarrow> npfloat" where
  "np_log u = (if u = 0 then NegInf else if u < 0 then NaN else Finite (ln u))"

fun np_less :: "npfloat \<Rightarrow> real \<Rightarrow> bool" where
  "np_less NegInf r = True"
| "np_less (Finite a) r = (a < r)"
| "np_less NaN r = False"

section \<open>The sampling loop\<close>

text \<open>
  \<^verbatim>\<open>
  x0 = [a_1 + (b_1-a_1)/2,a_2 + (b_2-a_2)/2,a_3 + (b_3-a_3)/2] # MC start points
  xi = x0
  samp_res = []
  for i in range(1500000):
      u = np.random.uniform(0,1)
      sel_x = np.array([np.random.uniform(i-0.29,i+0.29) for i in xi])
      p_x_prev = log_prob(xi)
      p_x = log_prob(sel_x)
      if np.log(u) < min(0, p_x-p_x_prev): # select new point in MC
          xi = sel_x
          samp_res.append([i for i in xi])
      else:
          samp_res.append([i for i in xi])
          continue
  \<close>
  The state of the loop is the current point \<^verbatim>\<open>xi\<close>, the list \<^verbatim>\<open>samp_res\<close> and the number
  of raw draws taken so far.  Each iteration takes one draw for \<^verbatim>\<open>u\<close> and then one per
  coordinate of \<^verbatim>\<open>xi\<close>, in this order.
\<close>

record chain =
  xi :: "real list"
  samp_res :: "real list list"
  drawn :: nat

definition x0 :: "config \<Rightarrow> real list" where
  "x0 c = [a_1 c + (b_1 c - a_1 c) / 2, a_2 c + (b_2 c - a_2 c) / 2, a_3 c + (b_3 c - a_3 c) / 2]"

definition sel_x_of :: "(nat \<Rightarrow> real) \<Rightarrow> nat \<Rightarrow> real list \<Rightarrow> real list" where
  "sel_x_of rng k cur =
     map (\<lambda>m. np_random_uniform (cur ! m - 29/100) (cur ! m + 29/100) (rng (k + m)))
       [0..<length cur]"

definition accepts :: "config \<Rightarrow> real \<Rightarrow> real list \<Rightarrow> real list \<Rightarrow> pyerror + bool" where
  "accepts c u cur cand =
     (case log_prob c cur of
        Inl e \<Rightarrow> Inl e
      | Inr p_x_prev \<Rightarrow>
          (case log_prob c cand of
             Inl e \<Rightarrow> Inl e
           | Inr p_x \<Rightarrow> Inr (np_less (np_log u) (min 0 (p_x - p_x_prev)))))"

definition mcmc_step :: "config \<Rightarrow> (nat \<Rightarrow> real) \<Rightarrow> chain \<Rightarrow> pyerror + chain" where
  "mcmc_step c rng st =
     (let u = np_random_uniform 0 1 (rng (drawn st));
          sel_x = sel_x_of rng (drawn st + 1) (xi st);
          k = drawn st + 1 + length (xi st)
      in case accepts c u (xi st) sel_x of
           Inl e \<Rightarrow> Inl e
         | Inr acc \<Rightarrow>
             if acc then Inr \<lparr> xi = sel_x, samp_res = samp_res st @ [sel_x], drawn = k \<rparr>
             else Inr \<lparr> xi = xi st, samp_res = samp_res st @ [xi st], drawn = k \<rparr>)"

fun mcmc_loop :: "config \<Rightarrow> (nat \<Rightarrow> real) \<Rightarrow> nat \<Rightarrow> chain \<Rightarrow> pyerror + chain" where
  "mcmc_loop c rng 0 st = Inr st"
| "mcmc_loop c rng (Suc n) st =
     (case mcmc_step c rng st of
        Inl e \<Rightarrow> Inl e
      | Inr st' \<Rightarrow> mcmc_loop c rng n st')"

definition mcmc_start :: "config \<Rightarrow> chain" where
  "mcmc_start c = \<lparr> xi = x0 c, samp_res = [], drawn = 0 \<rparr>"

definition mcmc :: "config \<Rightarrow> (nat \<Rightarrow> real) \<Rightarrow> pyerror + chain" where
  "mcmc c rng = mcmc_loop c rng 1500000 (mcmc_start c)"

definition in_box :: "config \<Rightarrow> real list \<Rightarrow> bool" where
  "in_box c x = (a_1 c \<le> x ! 0 \<and> x ! 0 \<le> b_1 c \<and> a_2 c \<le> x ! 1 \<and> x ! 1 \<le> b_2 c
                 \<and> a_3 c \<le> x ! 2 \<and> x ! 2 \<le> b_3 c)"

section \<open>The analytical marginal\<close>

text \<open>
  \<^verbatim>\<open>
  term1 = 1/np.sqrt(2*np.pi*sig**2)
  term2 = 1/np.sqrt(2*np.pi*sig_e**2)
  term3 = -((j+k)**2)/(2*sig_e**2)
  term4 = -(y**2)/(2*sig**2)
  term5 = np.sqrt(np.pi/((1/(2*sig**2))+(1/(2*sig_e**2))))
  term6 = (((y/(sig**2))+((j+k)/(sig_e**2)))**2)/(4*((1/(2*sig**2))+(1/(2*sig_e**2))))
  P_.append( np.log(term1)+np.log(term2)+term3+term4+np.log(term5)+term6 )
  \<close>
  The body of the loop over the \<open>(x2, x3)\<close> grid, as a function of the point \<open>(j, k)\<close>.
  \<^verbatim>\<open>term4\<close> and \<^verbatim>\<open>term5\<close> divide Python floats, which raises when \<^verbatim>\<open>sig\<close> or \<^verbatim>\<open>sig_e\<close>
  is zero.
\<close>

definition analytical :: "config \<Rightarrow> real \<Rightarrow> real \<Rightarrow> pyerror + real" where
  "analytical c j k =
     (if sig c = 0 \<or> sig_e c = 0 then Inl ZeroDivisionError
      else
        (let term1 = 1 / sqrt (2 * pi * (sig c) ^ 2);
             term2 = 1 / sqrt (2 * pi * (sig_e c) ^ 2);
             term3 = - ((j + k) ^ 2) / (2 * (sig_e c) ^ 2);
             term4 = - ((y c) ^ 2) / (2 * (sig c) ^ 2);
             term5 = sqrt (pi / ((1 / (2 * (sig c) ^ 2)) + (1 / (2 * (sig_e c) ^ 2))));
             term6 = (((y c / ((sig c) ^ 2)) + ((j + k) / ((sig_e c) ^ 2))) ^ 2)
                       / (4 * ((1 / (2 * (sig c) ^ 2)) + (1 / (2 * (sig_e c) ^ 2))))
         in Inr (ln term1 + ln term2 + term3 + term4 + ln term5 + term6)))"

section \<open>The grid and the trapezoidal method\<close>

text \<open>
  \<^verbatim>\<open>np.linspace(start, stop, num)\<close> returns \<open>num\<close> points \<open>start + k * step\<close> with
  \<open>step = (stop - start) / (num - 1)\<close>, the last one set to \<open>stop\<close> itself; a single point
  is \<open>start\<close>.
\<close>

definition linspace :: "real \<Rightarrow> real \<Rightarrow> nat \<Rightarrow> real list" where
  "linspace start stop num =
     (if num = 1 then [start]
      else (map (\<lambda>k. start + real k * ((stop - start) / real (num - 1))) [0..<num])
             [num - 1 := stop])"

text \<open>
  A numpy array of two or three dimensions is its shape together with its elements by
  index.  Only indices below the shape are meaningful.
\<close>

record arr3 =
  shape3 :: "nat \<times> nat \<times> nat"
  el3 :: "nat \<Rightarrow> nat \<Rightarrow> nat \<Rightarrow> real"

record arr2 =
  shape2 :: "nat \<times> nat"
  el2 :: "nat \<Rightarrow> nat \<Rightarrow> real"

text \<open>
  \<^verbatim>\<open>np.meshgrid\<close> with its default \<^verbatim>\<open>indexing='xy'\<close>: for inputs of lengths \<open>M\<close>, \<open>N\<close>
  and \<open>P\<close> the outputs have shape \<open>(N, M, P)\<close>; the first input varies along axis 1,
  the second along axis 0 and the third along axis 2.  For two inputs of lengths \<open>M\<close> and
  \<open>N\<close> the shape is \<open>(N, M)\<close>.
\<close>

definition meshgrid3 :: "real list \<Rightarrow> real list \<Rightarrow> real list \<Rightarrow> arr3 \<times> arr3 \<times> arr3" where
  "meshgrid3 l1 l2 l3 =
     (let s = (length l2, length l1, length l3)
      in (\<lparr> shape3 = s, el3 = (\<lambda>i j k. l1 ! j) \<rparr>,
          \<lparr> shape3 = s, el3 = (\<lambda>i j k. l2 ! i) \<rparr>,
          \<lparr> shape3 = s, el3 = (\<lambda>i j k. l3 ! k) \<rparr>))"

definition meshgrid2 :: "real list \<Rightarrow> real list \<Rightarrow> arr2 \<times> arr2" where
  "meshgrid2 l1 l2 =
     (let s = (length l2, length l1)
      in (\<lparr> shape2 = s, el2 = (\<lambda>i j. l1 ! j) \<rparr>,
          \<lparr> shape2 = s, el2 = (\<lambda>i j. l2 ! i) \<rparr>))"

text \<open>\<^verbatim>\<open>flatten\<close> lists the elements in row-major order: the last index runs fastest.\<close>

definition flatten3 :: "arr3 \<Rightarrow> real list" where
  "flatten3 A =
     (case shape3 A of (n0, n1, n2) \<Rightarrow>
        concat (map (\<lambda>i. concat (map (\<lambda>j. map (\<lambda>k. el3 A i j k) [0..<n2]) [0..<n1])) [0..<n0]))"

text \<open>
  \<^verbatim>\<open>np.array(P_).reshape(shape)\<close> reads a flat list in row-major order, and raises
  \<^verbatim>\<open>ValueError\<close> when the number of elements does not fit the shape.
\<close>

definition reshape3 :: "real list \<Rightarrow> nat \<times> nat \<times> nat \<Rightarrow> pyerror + arr3" where
  "reshape3 xs s =
     (case s of (n0, n1, n2) \<Rightarrow>
        if length xs = n0 * n1 * n2
        then Inr \<lparr> shape3 = s, el3 = (\<lambda>i j k. xs ! ((i * n1 + j) * n2 + k)) \<rparr>
        else Inl ValueError)"

text \<open>\<^verbatim>\<open>.T\<close> reverses the order of the axes.\<close>

definition transpose3 :: "arr3 \<Rightarrow> arr3" where
  "transpose3 A =
     (case shape3 A of (n0, n1, n2) \<Rightarrow>
        \<lparr> shape3 = (n2, n1, n0), el3 = (\<lambda>k j i. el3 A i j k) \<rparr>)"

text \<open>
  \<^verbatim>\<open>np.trapezoid(y, x=x, axis=axis)\<close> computes \<^verbatim>\<open>d = diff(x, axis)\<close> and returns
  \<^verbatim>\<open>(d * (y[1:] + y[:-1]) / 2.0).sum(axis)\<close>, the slices taken along \<^verbatim>\<open>axis\<close>.  The
  notebook calls it with \<open>x\<close> of the same shape as \<open>y\<close>; the model covers that case and
  reports any other as the \<^verbatim>\<open>ValueError\<close> of a failed broadcast.
\<close>

definition trapezoid3_axis1 :: "arr3 \<Rightarrow> arr3 \<Rightarrow> pyerror + arr2" where
  "trapezoid3_axis1 Y X =
     (case shape3 Y of (n0, n1, n2) \<Rightarrow>
        if shape3 X = shape3 Y
        then Inr \<lparr> shape2 = (n0, n2),
                   el2 = (\<lambda>a b. sum_list (map (\<lambda>j. (el3 X a (j + 1) b - el3 X a j b)
                                  * (el3 Y a (j + 1) b + el3 Y a j b) / 2) [0..<n1 - 1])) \<rparr>
        else Inl ValueError)"

definition trapezoid2_axis1 :: "arr2 \<Rightarrow> arr2 \<Rightarrow> pyerror + real list" where
  "trapezoid2_axis1 Y X =
     (case shape2 Y of (n0, n1) \<Rightarrow>
        if shape2 X = shape2 Y
        then Inr (map (\<lambda>a. sum_list (map (\<lambda>j. (el2 X a (j + 1) - el2 X a j)
                                  * (el2 Y a (j + 1) + el2 Y a j) / 2) [0..<n1 - 1])) [0..<n0])
        else Inl ValueError)"

definition trapezoid1 :: "real list \<Rightarrow> real list \<Rightarrow> pyerror + real" where
  "trapezoid1 ys xs =
     (if length xs = length ys
      then Inr (sum_list (map (\<lambda>j. (xs ! (j + 1) - xs ! j) * (ys ! (j + 1) + ys ! j) / 2)
                  [0..<length ys - 1]))
      else Inl ValueError)"

text \<open>
  \<^verbatim>\<open>
  grid_pts = 100
  X1_g,X2_g,X3_g = np.meshgrid(np.linspace(a_1,b_1,grid_pts),np.linspace(a_2,b_2,grid_pts),np.linspace(a_3,b_3,grid_pts))
  P_ = []
  for i,j,k in zip(X1_g.flatten(), X2_g.flatten(), X3_g.flatten()):
      P_.append( np.exp(-((y-i)**2)/(2*sig)) * np.exp(-((0-i+j+k)**2)/(2*sig_e)) )
  X2_c,X3_c = np.meshgrid(np.linspace(a_2,b_2,grid_pts),np.linspace(a_3,b_3,grid_pts))
  P_E_trapz = np.trapezoid(
      np.trapezoid(
          np.trapezoid(np.array(P_).reshape(X1_g.shape).T, x=X1_g, axis=1), x=X2_c, axis=1
          ), x=np.linspace(a_3,b_3,grid_pts), axis=0)
  \<close>
  The divisions in the loop body are numpy divisions: with \<^verbatim>\<open>sig\<close> or \<^verbatim>\<open>sig_e\<close> zero they
  give inf or nan, which the reals do not have; the statements about the grid are for
  nonzero \<^verbatim>\<open>sig\<close> and \<^verbatim>\<open>sig_e\<close>.  \<^verbatim>\<open>np.exp\<close> returns inf for an exponent above about
  \<open>709.78\<close>, which a negative \<^verbatim>\<open>sig\<close> or \<^verbatim>\<open>sig_e\<close> can produce; the real exponential
  is the code's only while the exponents stay below that.
\<close>

definition lin1 :: "config \<Rightarrow> real list" where
  "lin1 c = linspace (a_1 c) (b_1 c) (grid_pts c)"

definition lin2 :: "config \<Rightarrow> real list" where
  "lin2 c = linspace (a_2 c) (b_2 c) (grid_pts c)"

definition lin3 :: "config \<Rightarrow> real list" where
  "lin3 c = linspace (a_3 c) (b_3 c) (grid_pts c)"

definition X1_g :: "config \<Rightarrow> arr3" where
  "X1_g c = fst (meshgrid3 (lin1 c) (lin2 c) (lin3 c))"

definition X2_g :: "config \<Rightarrow> arr3" where
  "X2_g c = fst (snd (meshgrid3 (lin1 c) (lin2 c) (lin3 c)))"

definition X3_g :: "config \<Rightarrow> arr3" where
  "X3_g c = snd (snd (meshgrid3 (lin1 c) (lin2 c) (lin3 c)))"

definition density :: "config \<Rightarrow> real \<Rightarrow> real \<Rightarrow> real \<Rightarrow> real" where
  "density c i j k =
     exp (- ((y c - i) ^ 2) / (2 * sig c)) * exp (- ((0 - i + j + k) ^ 2) / (2 * sig_e c))"

definition P_list :: "config \<Rightarrow> real list" where
  "P_list c =
     map (\<lambda>(i, j, k). density c i j k)
       (zip (flatten3 (X1_g c)) (zip (flatten3 (X2_g c)) (flatten3 (X3_g c))))"

definition density_field :: "config \<Rightarrow> pyerror + arr3" where
  "density_field c = reshape3 (P_list c) (shape3 (X1_g c))"

definition X2_c :: "config \<Rightarrow> arr2" where
  "X2_c c = fst (meshgrid2 (lin2 c) (lin3 c))"

definition marginal_23 :: "config \<Rightarrow> pyerror + arr2" where
  "marginal_23 c =
     (case density_field c of
        Inl e \<Rightarrow> Inl e
      | Inr A \<Rightarrow> trapezoid3_axis1 (transpose3 A) (X1_g c))"

definition marginal_3 :: "config \<Rightarrow> pyerror + real list" where
  "marginal_3 c =
     (case marginal_23 c of
        Inl e \<Rightarrow> Inl e
      | Inr B \<Rightarrow> trapezoid2_axis1 B (X2_c c))"

definition P_E_trapz :: "config \<Rightarrow> pyerror + real" where
  "P_E_trapz c =
     (case marginal_3 c of
        Inl e \<Rightarrow> Inl e
      | Inr C \<Rightarrow> trapezoid1 C (linspace (a_3 c) (b_3 c) (grid_pts c)))"

section \<open>What the specification says\<close>

text \<open>
  The one-dimensional trapezoidal rule for a function sampled at the coordinates \<open>xs\<close>,
  and its nesting over the three axes: the field is integrated along the first axis
  against that axis's coordinates, the resulting two-dimensional field along the second
  axis, and the resulting one-dimensional array along the third.
\<close>

definition trapezoid_rule :: "(real \<Rightarrow> real) \<Rightarrow> real list \<Rightarrow> real" where
  "trapezoid_rule f xs =
     sum_list (map (\<lambda>j. (xs ! (j + 1) - xs ! j) * (f (xs ! (j + 1)) + f (xs ! j)) / 2)
       [0..<length xs - 1])"

definition nested_trapezoid :: "config \<Rightarrow> real" where
  "nested_trapezoid c =
     trapezoid_rule (\<lambda>x3.
       trapezoid_rule (\<lambda>x2.
         trapezoid_rule (\<lambda>x1. density c x1 x2 x3) (lin1 c)) (lin2 c)) (lin3 c)"

text \<open>
  A degenerate configuration, in the words of the specification: \<open>sigma <= 0\<close>,
  \<open>sigma_e <= 0\<close>, or \<open>alpha[i] >= beta[i]\<close> for some \<open>i\<close>.
\<close>

definition degenerate :: "config \<Rightarrow> bool" where
  "degenerate c = (sig c \<le> 0 \<or> sig_e c \<le> 0
      \<or> b_1 c \<le> a_1 c \<or> b_2 c \<le> a_2 c \<or> b_3 c \<le> a_3 c)"

section \<open>A sequence of raw draws with one zero\<close>

text \<open>
  The draw for \<^verbatim>\<open>u\<close> is \<open>1/2\<close> in every iteration but the sixth, where it is \<open>0\<close>; the
  first coordinate is always proposed \<open>0.27\<close> higher, the other two stay.
\<close>

definition zero_draw_rng :: "nat \<Rightarrow> real" where
  "zero_draw_rng k = (if k = 20 then 0 else if k mod 4 = 1 then 28/29 else 1/2)"

section \<open>The analytical marginal at the notebook's configuration\<close>



section \<open>Degenerate configurations and a sequence of draws without a zero\<close>

text \<open>
  The notebook's constants with a negative \<^verbatim>\<open>sig\<close> and the bounds of the first
  coordinate swapped, and the notebook's constants with a negative \<^verbatim>\<open>sig_e\<close>.  In the
  first, every exponent of the grid density is at most \<open>11.25\<close>; in both, every value
  that \<^verbatim>\<open>log_prob\<close> computes is below \<open>180012\<close> in absolute value.
\<close>

definition degenerate_example :: config where
  "degenerate_example = notebook \<lparr> sig := - (1/10), a_1 := 3, b_1 := 0 \<rparr>"

definition negative_sig_e_example :: config where
  "negative_sig_e_example = notebook \<lparr> sig_e := - (1/10000) \<rparr>"

text \<open>Every raw draw is \<open>1/2\<close>: \<^verbatim>\<open>u\<close> is \<open>0.5\<close> and every candidate is the current point.\<close>

definition half_rng :: "nat \<Rightarrow> real" where
  "half_rng k = 1/2"

section \<open>Properties of the log posterior\<close>

lemma in_range_count_three:
  "in_range_count [x1, x2, x3] = 3 \<longleftrightarrow> (0 < x1 \<and> x1 < 3) \<and> (0 < x2 \<and> x2 < 3) \<and> (0 < x3 \<and> x3 < 3)"
  by (simp add: in_range_count_def)

lemma in_range_count_le: "in_range_count par \<le> length par"
  by (induction par) (auto simp: in_range_count_def)

lemma in_range_count_full:
  "in_range_count par = length par \<longleftrightarrow> (\<forall>x\<in>set par. 0 < x \<and> x < 3)"
proof (induction par)
  case Nil
  show ?case by (simp add: in_range_count_def)
next
  case (Cons x xs)
  have le: "in_range_count xs \<le> length xs" by (rule in_range_count_le)
  have step: "in_range_count (x # xs) = (if 0 < x \<and> x < 3 then 1 else 0) + in_range_count xs"
    by (simp add: in_range_count_def)
  show ?case using Cons.IH le unfolding step by (auto split: if_splits)
qed

lemma log_prob_no_error:
  assumes "sig c \<noteq> 0" and "sig_e c \<noteq> 0"
  shows "\<exists>p. log_prob c par = Inr p"
  using assms by (simp add: log_prob_def)

text \<open>
  \<^bold>\<open>C1\<close>, as the claim states it, is false.  The claim takes the configured numbers as
  standard deviations (\<open>sigma = 0.1\<close>, \<open>sigma_e = 0.0001\<close>) and divides the squared
  residuals by \<open>2 * sigma^2\<close> and \<open>2 * sigma_e^2\<close>; \<^verbatim>\<open>log_prob\<close> divides by \<^verbatim>\<open>2*sig\<close> and
  \<^verbatim>\<open>2*sig_e\<close>.  At the interior point \<open>(1, 0.5, 0.5)\<close> the code returns \<open>-1.25\<close>, the
  claim's formula gives \<open>-12.5\<close>.
\<close>

theorem log_prob_squared_sigma_counterexample:
  "log_prob notebook [1, 1/2, 1/2]
     \<noteq> Inr (- ((y notebook - 1) ^ 2) / (2 * (sig notebook) ^ 2)
             - ((1 - 1/2 - 1/2) ^ 2) / (2 * (sig_e notebook) ^ 2))"
  by (simp add: log_prob_def in_range_count_def notebook_def power2_eq_square)

text \<open>
  \<^bold>\<open>C1\<close>, amended: the configured numbers \<open>sig = 0.1\<close> and \<open>sig_e = 0.0001\<close> are used as the
  variances themselves.  For every flow vector \<open>(x1, x2, x3)\<close> with all components
  strictly inside the bounds \<open>(0, 3)\<close>, \<^verbatim>\<open>log_prob\<close> returns
  \<open>-((y - x1)^2)/(2*sig) - ((x1 - x2 - x3)^2)/(2*sig_e)\<close> with \<open>y = 1.5\<close>; for every vector
  with a component on or outside a bound it returns the sentinel \<open>-1e+120\<close> and raises
  nothing.
\<close>

theorem log_prob_notebook_value:
  "(0 < x1 \<and> x1 < 3 \<and> 0 < x2 \<and> x2 < 3 \<and> 0 < x3 \<and> x3 < 3 \<longrightarrow>
      log_prob notebook [x1, x2, x3]
        = Inr (- ((3/2 - x1) ^ 2) / (2 * (1/10)) - ((x1 - x2 - x3) ^ 2) / (2 * (1/10000))))
   \<and> (\<not> (0 < x1 \<and> x1 < 3 \<and> 0 < x2 \<and> x2 < 3 \<and> 0 < x3 \<and> x3 < 3) \<longrightarrow>
      log_prob notebook [x1, x2, x3] = Inr (- (10 ^ 120)))"
proof -
  have sq: "(x2 - x1 + x3) ^ 2 = (x1 - x2 - x3) ^ 2"
    by (simp add: power2_eq_square algebra_simps)
  show ?thesis
    unfolding log_prob_def in_range_count_three sentinel_def
    by (simp add: notebook_def sq)
qed

theorem log_prob_notebook_value_witness:
  "log_prob notebook [1, 1/2, 1/2]
     = Inr (- ((3/2 - 1) ^ 2) / (2 * (1/10)) - ((1 - 1/2 - 1/2) ^ 2) / (2 * (1/10000)))
   \<and> log_prob notebook [3, 1, 1] = Inr (- (10 ^ 120))"
  using log_prob_notebook_value [of 1 "1/2" "1/2"] log_prob_notebook_value [of 3 1 1]
  by simp

text \<open>
  \<^bold>\<open>C10\<close>: the feasibility test of \<^verbatim>\<open>log_prob\<close> compares with the literals 0 and 3.  For
  every configuration and every vector of three coordinates, the sentinel branch is taken
  exactly when some coordinate is outside the open interval \<open>(0, 3)\<close>, and the result
  does not change when the configured bounds \<open>a_1..a_3\<close>, \<open>b_1..b_3\<close> are replaced by
  any other values.
\<close>

theorem log_prob_literal_bounds:
  assumes "length par = 3"
  shows "(in_range_count par \<noteq> 3 \<longleftrightarrow> (\<exists>x\<in>set par. x \<le> 0 \<or> 3 \<le> x))
    \<and> log_prob c par =
        (if \<exists>x\<in>set par. x \<le> 0 \<or> 3 \<le> x then Inr sentinel
         else if 2 * sig c = 0 \<or> 2 * sig_e c = 0 then Inl ZeroDivisionError
         else Inr (- ((y c - par ! 0) ^ 2) / (2 * sig c)
                   + - ((0 - par ! 0 + par ! 1 + par ! 2) ^ 2) / (2 * sig_e c)))
    \<and> log_prob (c\<lparr>a_1 := a1, a_2 := a2, a_3 := a3, b_1 := b1, b_2 := b2, b_3 := b3\<rparr>) par
        = log_prob c par"
  using in_range_count_full [of par] assms
  by (auto simp: log_prob_def not_less)

theorem log_prob_literal_bounds_witness:
  "length [1, 0, 2 :: real] = 3
   \<and> in_range_count [1, 0, 2] \<noteq> 3
   \<and> log_prob notebook [1, 0, 2] = Inr sentinel
   \<and> log_prob (notebook\<lparr>a_1 := -5, a_2 := -5, a_3 := -5, b_1 := 5, b_2 := 5, b_3 := 5\<rparr>) [1, 0, 2]
       = log_prob notebook [1, 0, 2]"
  using log_prob_literal_bounds [where par = "[1, 0, 2]" and c = notebook
      and ?a1.0 = "-5" and ?a2.0 = "-5" and ?a3.0 = "-5" and ?b1.0 = 5 and ?b2.0 = 5 and ?b3.0 = 5]
  by simp

section \<open>Properties of the sampling loop\<close>

lemma notebook_sig: "sig notebook \<noteq> 0" "sig_e notebook \<noteq> 0"
  by (simp_all add: notebook_def)

lemma accepts_no_error:
  assumes "sig c \<noteq> 0" and "sig_e c \<noteq> 0"
  shows "\<exists>b. accepts c u cur cand = Inr b"
proof -
  obtain p where p: "log_prob c cur = Inr p"
    using log_prob_no_error [OF assms] by blast
  obtain q where q: "log_prob c cand = Inr q"
    using log_prob_no_error [OF assms] by blast
  show ?thesis by (simp add: accepts_def p q)
qed

lemma mcmc_step_shape:
  assumes "accepts c (np_random_uniform 0 1 (rng (drawn st))) (xi st)
             (sel_x_of rng (drawn st + 1) (xi st)) = Inr b"
  shows "mcmc_step c rng st =
      Inr \<lparr> xi = (if b then sel_x_of rng (drawn st + 1) (xi st) else xi st),
            samp_res = samp_res st @ [if b then sel_x_of rng (drawn st + 1) (xi st) else xi st],
            drawn = drawn st + 1 + length (xi st) \<rparr>"
  using assms by (simp add: mcmc_step_def Let_def)

lemma mcmc_step_appends:
  assumes "sig c \<noteq> 0" and "sig_e c \<noteq> 0"
  shows "\<exists>st'. mcmc_step c rng st = Inr st' \<and> samp_res st' = samp_res st @ [xi st']"
proof -
  obtain b where "accepts c (np_random_uniform 0 1 (rng (drawn st))) (xi st)
             (sel_x_of rng (drawn st + 1) (xi st)) = Inr b"
    using accepts_no_error [OF assms] by blast
  from mcmc_step_shape [OF this] show ?thesis by simp
qed

lemma mcmc_loop_appends:
  assumes "sig c \<noteq> 0" and "sig_e c \<noteq> 0"
  shows "\<exists>st' ys. mcmc_loop c rng n st = Inr st' \<and> samp_res st' = samp_res st @ ys
           \<and> length ys = n"
proof (induction n arbitrary: st)
  case 0
  show ?case by simp
next
  case (Suc n)
  obtain st1 where s1: "mcmc_step c rng st = Inr st1" "samp_res st1 = samp_res st @ [xi st1]"
    using mcmc_step_appends [OF assms] by blast
  obtain st' ys where s2: "mcmc_loop c rng n st1 = Inr st'"
      "samp_res st' = samp_res st1 @ ys" "length ys = n"
    using Suc.IH by blast
  show ?case using s1 s2 by simp
qed

lemma mcmc_loop_add:
  "mcmc_loop c rng (n + m) st =
     (case mcmc_loop c rng n st of Inl e \<Rightarrow> Inl e | Inr st' \<Rightarrow> mcmc_loop c rng m st')"
proof (induction n arbitrary: st)
  case 0
  show ?case by simp
next
  case (Suc n)
  show ?case by (cases "mcmc_step c rng st") (simp_all add: Suc.IH)
qed

text \<open>
  \<^bold>\<open>C6\<close>: with the notebook's configuration and any sequence of raw draws, the loop runs
  its 1,500,000 iterations without an error or an early stop, and the chain then has
  1,500,000 entries.  Every iteration, from any state, appends exactly one entry: the
  candidate when it was accepted, the unchanged previous point otherwise.
\<close>

theorem mcmc_chain_length:
  "(\<exists>st'. mcmc notebook rng = Inr st' \<and> length (samp_res st') = 1500000)
   \<and> (\<exists>b. accepts notebook (np_random_uniform 0 1 (rng (drawn st))) (xi st)
             (sel_x_of rng (drawn st + 1) (xi st)) = Inr b
        \<and> mcmc_step notebook rng st =
            Inr \<lparr> xi = (if b then sel_x_of rng (drawn st + 1) (xi st) else xi st),
                  samp_res = samp_res st
                     @ [if b then sel_x_of rng (drawn st + 1) (xi st) else xi st],
                  drawn = drawn st + 1 + length (xi st) \<rparr>)"
proof
  obtain st' ys where "mcmc_loop notebook rng 1500000 (mcmc_start notebook) = Inr st'"
    "samp_res st' = samp_res (mcmc_start notebook) @ ys" "length ys = 1500000"
    using mcmc_loop_appends [OF notebook_sig] by blast
  then show "\<exists>st'. mcmc notebook rng = Inr st' \<and> length (samp_res st') = 1500000"
    by (simp add: mcmc_def mcmc_start_def)
next
  obtain b where b: "accepts notebook (np_random_uniform 0 1 (rng (drawn st))) (xi st)
             (sel_x_of rng (drawn st + 1) (xi st)) = Inr b"
    using accepts_no_error [OF notebook_sig] by blast
  show "\<exists>b. accepts notebook (np_random_uniform 0 1 (rng (drawn st))) (xi st)
             (sel_x_of rng (drawn st + 1) (xi st)) = Inr b
        \<and> mcmc_step notebook rng st =
            Inr \<lparr> xi = (if b then sel_x_of rng (drawn st + 1) (xi st) else xi st),
                  samp_res = samp_res st
                     @ [if b then sel_x_of rng (drawn st + 1) (xi st) else xi st],
                  drawn = drawn st + 1 + length (xi st) \<rparr>"
    using b mcmc_step_shape [OF b] by blast
qed

theorem mcmc_chain_length_witness:
  "\<exists>st'. mcmc notebook (\<lambda>k. 1/2) = Inr st' \<and> length (samp_res st') = 1500000"
  using mcmc_chain_length [of "\<lambda>k. 1/2" "mcmc_start notebook"] by blast

subsection \<open>The rule of one iteration\<close>

lemma sel_x_of_length: "length (sel_x_of rng k cur) = length cur"
  by (simp add: sel_x_of_def)

lemma sel_x_of_range:
  assumes "m < length cur" and "raw_draw (rng (k + m))"
  shows "cur ! m - 29/100 \<le> sel_x_of rng k cur ! m \<and> sel_x_of rng k cur ! m < cur ! m + 29/100"
  using assms by (simp add: sel_x_of_def np_random_uniform_def raw_draw_def)

lemma accepts_positive_draw:
  assumes "log_prob c cur = Inr p" and "log_prob c cand = Inr q" and "0 < u"
  shows "accepts c u cur cand = Inr (ln u < min 0 (q - p))"
  using assms by (simp add: accepts_def np_log_def)

lemma accepts_uphill:
  assumes "log_prob c cur = Inr p" and "log_prob c cand = Inr q" and "p \<le> q"
    and "0 < u" and "u < 1"
  shows "accepts c u cur cand = Inr True"
  using assms by (simp add: accepts_def np_log_def)

lemma accepts_zero_draw:
  assumes "log_prob c cur = Inr p" and "log_prob c cand = Inr q"
  shows "accepts c 0 cur cand = Inr True"
  using assms by (simp add: accepts_def np_log_def)

lemma mcmc_step_moves:
  assumes "sel_x_of rng (k + 1) cur = cand"
    and "accepts c (np_random_uniform 0 1 (rng k)) cur cand = Inr True"
  shows "mcmc_step c rng \<lparr> xi = cur, samp_res = S, drawn = k \<rparr>
           = Inr \<lparr> xi = cand, samp_res = S @ [cand], drawn = k + 1 + length cur \<rparr>"
  using assms by (simp add: mcmc_step_def Let_def)

subsection \<open>A run that leaves the box\<close>

lemma zero_draw_rng_raw: "raw_draw (zero_draw_rng k)"
  by (simp add: raw_draw_def zero_draw_rng_def)

lemma sel_x_of_three:
  "sel_x_of rng k [p, q, r] =
     [np_random_uniform (p - 29/100) (p + 29/100) (rng k),
      np_random_uniform (q - 29/100) (q + 29/100) (rng (k + 1)),
      np_random_uniform (r - 29/100) (r + 29/100) (rng (k + 2))]"
  by (simp add: sel_x_of_def upt_rec)

lemma walk_log_prob_0: "log_prob notebook [3/2, 3/2, 3/2] = Inr (-11250)"
  by (simp add: log_prob_def in_range_count_def notebook_def power2_eq_square)

lemma walk_log_prob_1: "log_prob notebook [177/100, 3/2, 3/2] = Inr (-15129729/2000)"
  by (simp add: log_prob_def in_range_count_def notebook_def power2_eq_square)

lemma walk_log_prob_2: "log_prob notebook [51/25, 3/2, 3/2] = Inr (-2304729/500)"
  by (simp add: log_prob_def in_range_count_def notebook_def power2_eq_square)

lemma walk_log_prob_3: "log_prob notebook [231/100, 3/2, 3/2] = Inr (-4767561/2000)"
  by (simp add: log_prob_def in_range_count_def notebook_def power2_eq_square)

lemma walk_log_prob_4: "log_prob notebook [129/50, 3/2, 3/2] = Inr (-110979/125)"
  by (simp add: log_prob_def in_range_count_def notebook_def power2_eq_square)

lemma walk_log_prob_5: "log_prob notebook [57/20, 3/2, 3/2] = Inr (-9729/80)"
  by (simp add: log_prob_def in_range_count_def notebook_def power2_eq_square)

lemma walk_log_prob_6: "log_prob notebook [78/25, 3/2, 3/2] = Inr sentinel"
  by (simp add: log_prob_def in_range_count_def)

lemma walk_step_0:
  "mcmc_step notebook zero_draw_rng \<lparr> xi = [3/2, 3/2, 3/2], samp_res = [], drawn = 0 \<rparr>
     = Inr \<lparr> xi = [177/100, 3/2, 3/2], samp_res = [[177/100, 3/2, 3/2]], drawn = 4 \<rparr>"
proof -
  have sel: "sel_x_of zero_draw_rng (0 + 1) [3/2, 3/2, 3/2] = [177/100, 3/2, 3/2]"
    by (simp add: sel_x_of_three np_random_uniform_def zero_draw_rng_def)
  have acc: "accepts notebook (np_random_uniform 0 1 (zero_draw_rng 0)) [3/2, 3/2, 3/2] [177/100, 3/2, 3/2] = Inr True"
    by (rule accepts_uphill [OF walk_log_prob_0 walk_log_prob_1]) (simp_all add: np_random_uniform_def zero_draw_rng_def)
  show ?thesis using mcmc_step_moves [OF sel acc, of "[]"] by simp
qed

lemma walk_step_1:
  "mcmc_step notebook zero_draw_rng \<lparr> xi = [177/100, 3/2, 3/2], samp_res = [[177/100, 3/2, 3/2]], drawn = 4 \<rparr>
     = Inr \<lparr> xi = [51/25, 3/2, 3/2], samp_res = [[177/100, 3/2, 3/2], [51/25, 3/2, 3/2]], drawn = 8 \<rparr>"
proof -
  have sel: "sel_x_of zero_draw_rng (4 + 1) [177/100, 3/2, 3/2] = [51/25, 3/2, 3/2]"
    by (simp add: sel_x_of_three np_random_uniform_def zero_draw_rng_def)
  have acc: "accepts notebook (np_random_uniform 0 1 (zero_draw_rng 4)) [177/100, 3/2, 3/2] [51/25, 3/2, 3/2] = Inr True"
    by (rule accepts_uphill [OF walk_log_prob_1 walk_log_prob_2]) (simp_all add: np_random_uniform_def zero_draw_rng_def)
  show ?thesis using mcmc_step_moves [OF sel acc, of "[[177/100, 3/2, 3/2]]"] by simp
qed

lemma walk_step_2:
  "mcmc_step notebook zero_draw_rng \<lparr> xi = [51/25, 3/2, 3/2], samp_res = [[177/100, 3/2, 3/2], [51/25, 3/2, 3/2]], drawn = 8 \<rparr>
     = Inr \<lparr> xi = [231/100, 3/2, 3/2], samp_res = [[177/100, 3/2, 3/2], [51/25, 3/2, 3/2], [231/100, 3/2, 3/2]], drawn = 12 \<rparr>"
proof -
  have sel: "sel_x_of zero_draw_rng (8 + 1) [51/25, 3/2, 3/2] = [231/100, 3/2, 3/2]"
    by (simp add: sel_x_of_three np_random_uniform_def zero_draw_rng_def)
  have acc: "accepts notebook (np_random_uniform 0 1 (zero_draw_rng 8)) [51/25, 3/2, 3/2] [231/100, 3/2, 3/2] = Inr True"
    by (rule accepts_uphill [OF walk_log_prob_2 walk_log_prob_3]) (simp_all add: np_random_uniform_def zero_draw_rng_def)
  show ?thesis using mcmc_step_moves [OF sel acc, of "[[177/100, 3/2, 3/2], [51/25, 3/2, 3/2]]"] by simp
qed

lemma walk_step_3:
  "mcmc_step notebook zero_draw_rng \<lparr> xi = [231/100, 3/2, 3/2], samp_res = [[177/100, 3/2, 3/2], [51/25, 3/2, 3/2], [231/100, 3/2, 3/2]], drawn = 12 \<rparr>
     = Inr \<lparr> xi = [129/50, 3/2, 3/2], samp_res = [[177/100, 3/2, 3/2], [51/25, 3/2, 3/2], [231/100, 3/2, 3/2], [129/50, 3/2, 3/2]], drawn = 16 \<rparr>"
proof -
  have sel: "sel_x_of zero_draw_rng (12 + 1) [231/100, 3/2, 3/2] = [129/50, 3/2, 3/2]"
    by (simp add: sel_x_of_three np_random_uniform_def zero_draw_rng_def)
  have acc: "accepts notebook (np_random_uniform 0 1 (zero_draw_rng 12)) [231/100, 3/2, 3/2] [129/50, 3/2, 3/2] = Inr True"
    by (rule accepts_uphill [OF walk_log_prob_3 walk_log_prob_4]) (simp_all add: np_random_uniform_def zero_draw_rng_def)
  show ?thesis using mcmc_step_moves [OF sel acc, of "[[177/100, 3/2, 3/2], [51/25, 3/2, 3/2], [231/100, 3/2, 3/2]]"] by simp
qed

lemma walk_step_4:
  "mcmc_step notebook zero_draw_rng \<lparr> xi = [129/50, 3/2, 3/2], samp_res = [[177/100, 3/2, 3/2], [51/25, 3/2, 3/2], [231/100, 3/2, 3/2], [129/50, 3/2, 3/2]], drawn = 16 \<rparr>
     = Inr \<lparr> xi = [57/20, 3/2, 3/2], samp_res = [[177/100, 3/2, 3/2], [51/25, 3/2, 3/2], [231/100, 3/2, 3/2], [129/50, 3/2, 3/2], [57/20, 3/2, 3/2]], drawn = 20 \<rparr>"
proof -
  have sel: "sel_x_of zero_draw_rng (16 + 1) [129/50, 3/2, 3/2] = [57/20, 3/2, 3/2]"
    by (simp add: sel_x_of_three np_random_uniform_def zero_draw_rng_def)
  have acc: "accepts notebook (np_random_uniform 0 1 (zero_draw_rng 16)) [129/50, 3/2, 3/2] [57/20, 3/2, 3/2] = Inr True"
    by (rule accepts_uphill [OF walk_log_prob_4 walk_log_prob_5]) (simp_all add: np_random_uniform_def zero_draw_rng_def)
  show ?thesis using mcmc_step_moves [OF sel acc, of "[[177/100, 3/2, 3/2], [51/25, 3/2, 3/2], [231/100, 3/2, 3/2], [129/50, 3/2, 3/2]]"] by simp
qed

lemma walk_step_5:
  "mcmc_step notebook zero_draw_rng \<lparr> xi = [57/20, 3/2, 3/2], samp_res = [[177/100, 3/2, 3/2], [51/25, 3/2, 3/2], [231/100, 3/2, 3/2], [129/50, 3/2, 3/2], [57/20, 3/2, 3/2]], drawn = 20 \<rparr>
     = Inr \<lparr> xi = [78/25, 3/2, 3/2], samp_res = [[177/100, 3/2, 3/2], [51/25, 3/2, 3/2], [231/100, 3/2, 3/2], [129/50, 3/2, 3/2], [57/20, 3/2, 3/2], [78/25, 3/2, 3/2]], drawn = 24 \<rparr>"
proof -
  have sel: "sel_x_of zero_draw_rng (20 + 1) [57/20, 3/2, 3/2] = [78/25, 3/2, 3/2]"
    by (simp add: sel_x_of_three np_random_uniform_def zero_draw_rng_def)
  have acc: "accepts notebook (np_random_uniform 0 1 (zero_draw_rng 20)) [57/20, 3/2, 3/2] [78/25, 3/2, 3/2] = Inr True"
    by (simp add: np_random_uniform_def zero_draw_rng_def accepts_zero_draw [OF walk_log_prob_5 walk_log_prob_6])
  show ?thesis using mcmc_step_moves [OF sel acc, of "[[177/100, 3/2, 3/2], [51/25, 3/2, 3/2], [231/100, 3/2, 3/2], [129/50, 3/2, 3/2], [57/20, 3/2, 3/2]]"] by simp
qed

lemma walk_six:
  "mcmc_loop notebook zero_draw_rng 6 (mcmc_start notebook)
     = Inr \<lparr> xi = [78/25, 3/2, 3/2], samp_res = [[177/100, 3/2, 3/2], [51/25, 3/2, 3/2], [231/100, 3/2, 3/2], [129/50, 3/2, 3/2], [57/20, 3/2, 3/2], [78/25, 3/2, 3/2]], drawn = 24 \<rparr>"
proof -
  have start: "mcmc_start notebook = \<lparr> xi = [3/2, 3/2, 3/2], samp_res = [], drawn = 0 \<rparr>"
    by (simp add: mcmc_start_def x0_def notebook_def)
  have six: "(6::nat) = Suc (Suc (Suc (Suc (Suc (Suc 0)))))"
    by simp
  show ?thesis
    unfolding start six
    by (simp add: walk_step_0 walk_step_1 walk_step_2 walk_step_3 walk_step_4 walk_step_5)
qed

text \<open>
  \<^bold>\<open>C2\<close>: the run of the notebook's sampler on the draws \<open>zero_draw_rng\<close>, each of them a
  value in \<open>[0, 1)\<close>.  The first five candidates go uphill and are accepted; the sixth
  has \<open>x1 = 3.12\<close>, above the bound 3, and is accepted because the draw for \<^verbatim>\<open>u\<close> is 0
  and \<^verbatim>\<open>np.log(0)\<close> is \<^verbatim>\<open>-inf\<close>.  The sixth of the 1,500,000 recorded states is outside
  the box.
\<close>

theorem mcmc_zero_draw_leaves_box:
  "(\<forall>k. raw_draw (zero_draw_rng k))
   \<and> (\<exists>st. mcmc notebook zero_draw_rng = Inr st
     \<and> length (samp_res st) = 1500000
     \<and> samp_res st ! 5 = [78/25, 3/2, 3/2]
     \<and> \<not> in_box notebook (samp_res st ! 5))"
proof -
  let ?st6 = "\<lparr> xi = [78/25, 3/2, 3/2],
      samp_res = [[177/100, 3/2, 3/2], [51/25, 3/2, 3/2], [231/100, 3/2, 3/2],
                  [129/50, 3/2, 3/2], [57/20, 3/2, 3/2], [78/25, 3/2, 3/2]],
      drawn = 24 \<rparr> :: chain"
  have split: "(1500000::nat) = 6 + 1499994" by simp
  obtain st ys where st: "mcmc_loop notebook zero_draw_rng 1499994 ?st6 = Inr st"
      "samp_res st = samp_res ?st6 @ ys" "length ys = 1499994"
    using mcmc_loop_appends [OF notebook_sig] by blast
  have run: "mcmc notebook zero_draw_rng = Inr st"
    unfolding mcmc_def split mcmc_loop_add walk_six using st(1) by simp
  have len: "length (samp_res st) = 1500000"
    using st(2,3) by simp
  have sixth: "samp_res st ! 5 = [78/25, 3/2, 3/2]"
    using st(2) by (simp add: nth_append)
  have out: "\<not> in_box notebook [78/25, 3/2, 3/2]"
    by (simp add: in_box_def notebook_def)
  show ?thesis using zero_draw_rng_raw run len sixth out by simp
qed

text \<open>
  \<^bold>\<open>C3\<close>: \<^verbatim>\<open>np.random.uniform(0,1)\<close> can return 0, which is not in the open interval
  \<open>(0, 1)\<close>.  With that draw the iteration moves to its candidate whatever the two
  log densities are: here from a point inside the box to a candidate whose log density
  is the sentinel.
\<close>

theorem mcmc_step_zero_draw:
  "raw_draw (zero_draw_rng 20)
   \<and> np_random_uniform 0 1 (zero_draw_rng 20) = 0
   \<and> np_log (np_random_uniform 0 1 (zero_draw_rng 20)) = NegInf
   \<and> log_prob notebook [57/20, 3/2, 3/2] = Inr (-9729/80)
   \<and> log_prob notebook [78/25, 3/2, 3/2] = Inr sentinel
   \<and> mcmc_step notebook zero_draw_rng
        \<lparr> xi = [57/20, 3/2, 3/2], samp_res = [], drawn = 20 \<rparr>
       = Inr \<lparr> xi = [78/25, 3/2, 3/2], samp_res = [[78/25, 3/2, 3/2]], drawn = 24 \<rparr>"
proof -
  have u: "np_random_uniform 0 1 (zero_draw_rng 20) = 0"
    by (simp add: np_random_uniform_def zero_draw_rng_def)
  have sel: "sel_x_of zero_draw_rng (20 + 1) [57/20, 3/2, 3/2] = [78/25, 3/2, 3/2]"
    by (simp add: sel_x_of_three np_random_uniform_def zero_draw_rng_def)
  have acc: "accepts notebook (np_random_uniform 0 1 (zero_draw_rng 20))
               [57/20, 3/2, 3/2] [78/25, 3/2, 3/2] = Inr True"
    unfolding u by (rule accepts_zero_draw [OF walk_log_prob_5 walk_log_prob_6])
  have step: "mcmc_step notebook zero_draw_rng
        \<lparr> xi = [57/20, 3/2, 3/2], samp_res = [], drawn = 20 \<rparr>
       = Inr \<lparr> xi = [78/25, 3/2, 3/2], samp_res = [[78/25, 3/2, 3/2]], drawn = 24 \<rparr>"
    using mcmc_step_moves [OF sel acc, of "[]"] by simp
  show ?thesis
    using zero_draw_rng_raw [of 20] u walk_log_prob_5 walk_log_prob_6 step
    by (simp add: np_log_def)
qed

subsection \<open>Runs without a zero draw\<close>

text \<open>
  The generator's raw draws are multiples of \<open>2^-53\<close>, so a draw that is not zero is at
  least \<open>2^-53\<close>.  When no draw is zero, a candidate outside \<open>(0, 3)\<close> is never accepted
  and every recorded state lies strictly inside the box: the only way out of the box is
  the draw \<open>u = 0\<close>.
\<close>

lemma log_prob_feasible_lower:
  assumes "in_range_count [x1, x2, x3] = 3"
  shows "\<exists>p. log_prob notebook [x1, x2, x3] = Inr p \<and> - 180012 \<le> p"
proof -
  have r: "0 < x1" "x1 < 3" "0 < x2" "x2 < 3" "0 < x3" "x3 < 3"
    using assms unfolding in_range_count_three by simp_all
  have "\<bar>3/2 - x1\<bar> \<le> \<bar>3/2\<bar>" using r by arith
  then have a: "(3/2 - x1) ^ 2 \<le> (3/2) ^ 2" by (simp only: abs_le_square_iff)
  have "\<bar>x2 - x1 + x3\<bar> \<le> \<bar>6\<bar>" using r by arith
  then have b: "(x2 - x1 + x3) ^ 2 \<le> 6 ^ 2" by (simp only: abs_le_square_iff)
  have "log_prob notebook [x1, x2, x3]
      = Inr (- ((3/2 - x1) ^ 2) * 5 - ((x2 - x1 + x3) ^ 2) * 5000)"
    using assms by (simp add: log_prob_def notebook_def)
  moreover have "- 180012 \<le> - ((3/2 - x1) ^ 2) * 5 - ((x2 - x1 + x3) ^ 2) * 5000"
    using a b by (simp add: power2_eq_square)
  ultimately show ?thesis by blast
qed

lemma ln_small_draw:
  assumes "1 / 2 ^ 53 \<le> (u::real)"
  shows "- 53 \<le> ln u"
proof -
  have pos: "0 < u" using assms by (rule less_le_trans [rotated]) simp
  have l2: "ln 2 \<le> (1::real)"
    using ln_le_minus_one [of "2::real"] by simp
  have "ln ((1/2) ^ 53 :: real) = 53 * ln (1/2)"
    by (subst ln_realpow) simp_all
  also have "\<dots> = - (53 * ln (2::real))"
    by (simp add: ln_div)
  finally have "- 53 \<le> ln ((1/2) ^ 53 :: real)"
    using l2 by simp
  moreover have "((1/2) ^ 53 :: real) = 1 / 2 ^ 53"
    by (simp add: power_one_over)
  ultimately have "- 53 \<le> ln (1 / 2 ^ 53 :: real)"
    by (simp only:)
  also have "\<dots> \<le> ln u"
    using assms pos by (subst ln_le_cancel_iff) simp_all
  finally show ?thesis .
qed

lemma accepts_rejects_infeasible:
  assumes "in_range_count [x1, x2, x3] = 3" and "in_range_count cand \<noteq> 3"
    and "1 / 2 ^ 53 \<le> u"
  shows "accepts notebook u [x1, x2, x3] cand = Inr False"
proof -
  obtain p where p: "log_prob notebook [x1, x2, x3] = Inr p" "- 180012 \<le> p"
    using log_prob_feasible_lower [OF assms(1)] by blast
  have q: "log_prob notebook cand = Inr sentinel"
    using assms(2) by (simp add: log_prob_def)
  have pos: "0 < u" using assms(3) by (rule less_le_trans [rotated]) simp
  have "sentinel - p \<le> - (10 ^ 120) + 180012"
    using p(2) by (simp add: sentinel_def)
  also have "\<dots> < - 53" by simp
  also have "\<dots> \<le> ln u" by (rule ln_small_draw [OF assms(3)])
  finally have "\<not> ln u < min 0 (sentinel - p)" by simp
  then show ?thesis
    using pos by (simp add: accepts_def p(1) q np_log_def)
qed


lemma length_three: "length xs = 3 \<Longrightarrow> \<exists>a b c. xs = [a, b, c]"
  by (auto simp: numeral_3_eq_3 length_Suc_conv)

lemma mcmc_step_feasible:
  assumes "length (xi st) = 3" and "in_range_count (xi st) = 3"
    and "1 / 2 ^ 53 \<le> rng (drawn st)"
  shows "\<exists>st'. mcmc_step notebook rng st = Inr st' \<and> length (xi st') = 3
     \<and> in_range_count (xi st') = 3 \<and> samp_res st' = samp_res st @ [xi st']"
proof -
  let ?u = "np_random_uniform 0 1 (rng (drawn st))"
  let ?cand = "sel_x_of rng (drawn st + 1) (xi st)"
  obtain x1 x2 x3 where x: "xi st = [x1, x2, x3]"
    using length_three [OF assms(1)] by blast
  have u: "1 / 2 ^ 53 \<le> ?u"
    using assms(3) by (simp add: np_random_uniform_def)
  obtain b where b: "accepts notebook ?u (xi st) ?cand = Inr b"
    using accepts_no_error [OF notebook_sig] by blast
  have len: "length ?cand = 3"
    by (simp add: sel_x_of_def assms(1))
  show ?thesis
  proof (cases "in_range_count ?cand = 3")
    case True
    then show ?thesis
      using mcmc_step_shape [OF b] assms(1,2) len by (cases b) simp_all
  next
    case False
    have "accepts notebook ?u [x1, x2, x3] ?cand = Inr False"
      using assms(2) False u unfolding x by (rule accepts_rejects_infeasible)
    then have "b = False" using b by (simp add: x)
    then show ?thesis
      using mcmc_step_shape [OF b] assms(1,2) by simp
  qed
qed

lemma mcmc_step_drawn:
  assumes "mcmc_step c rng st = Inr st'"
  shows "drawn st' = drawn st + 1 + length (xi st)"
  using assms by (auto simp: mcmc_step_def Let_def split: sum.splits if_splits)

lemma mcmc_loop_feasible:
  assumes "\<forall>k. 1 / 2 ^ 53 \<le> rng k"
    and "length (xi st) = 3" and "in_range_count (xi st) = 3"
  shows "\<exists>st' ys. mcmc_loop notebook rng n st = Inr st' \<and> samp_res st' = samp_res st @ ys
     \<and> length ys = n \<and> (\<forall>x\<in>set ys. length x = 3 \<and> in_range_count x = 3)"
  using assms(2,3)
proof (induction n arbitrary: st)
  case 0
  show ?case by simp
next
  case (Suc n)
  obtain st1 where s1: "mcmc_step notebook rng st = Inr st1" "length (xi st1) = 3"
      "in_range_count (xi st1) = 3" "samp_res st1 = samp_res st @ [xi st1]"
    using mcmc_step_feasible [OF Suc.prems, of rng] assms(1) by blast
  obtain st' ys where s2: "mcmc_loop notebook rng n st1 = Inr st'"
      "samp_res st' = samp_res st1 @ ys" "length ys = n"
      "\<forall>x\<in>set ys. length x = 3 \<and> in_range_count x = 3"
    using Suc.IH [OF s1(2,3)] by blast
  have "mcmc_loop notebook rng (Suc n) st = Inr st'"
    using s1(1) s2(1) by simp
  moreover have "samp_res st' = samp_res st @ (xi st1 # ys)"
    using s1(4) s2(2) by simp
  moreover have "length (xi st1 # ys) = Suc n"
    using s2(3) by simp
  moreover have "\<forall>x\<in>set (xi st1 # ys). length x = 3 \<and> in_range_count x = 3"
    using s1(2,3) s2(4) by simp
  ultimately show ?case by blast
qed

lemma mcmc_feasible_without_zero_draw:
  assumes "\<forall>k. 1 / 2 ^ 53 \<le> rng k"
  shows "\<exists>st. mcmc notebook rng = Inr st \<and> length (samp_res st) = 1500000
     \<and> (\<forall>x\<in>set (samp_res st). length x = 3 \<and> in_range_count x = 3 \<and> in_box notebook x)"
proof -
  have start: "length (xi (mcmc_start notebook)) = 3"
    "in_range_count (xi (mcmc_start notebook)) = 3"
    by (simp_all add: mcmc_start_def x0_def notebook_def in_range_count_def)
  obtain st ys where st: "mcmc_loop notebook rng 1500000 (mcmc_start notebook) = Inr st"
      "samp_res st = samp_res (mcmc_start notebook) @ ys" "length ys = 1500000"
      "\<forall>x\<in>set ys. length x = 3 \<and> in_range_count x = 3"
    using mcmc_loop_feasible [OF assms start, of 1500000] by blast
  have box: "in_box notebook x" if len: "length x = 3" and cnt: "in_range_count x = 3" for x
  proof -
    obtain a b c where x: "x = [a, b, c]" using length_three [OF len] by blast
    show ?thesis
      using cnt unfolding x in_range_count_three
      by (simp add: in_box_def notebook_def)
  qed
  have "samp_res st = ys" using st(2) by (simp add: mcmc_start_def)
  then show ?thesis
    using st(1,3,4) box by (auto simp: mcmc_def)
qed

section \<open>Properties of the analytical marginal\<close>

lemma ln_inv_sqrt:
  assumes "0 < z"
  shows "ln (1 / sqrt z) = - (1/2) * ln (z::real)"
  using assms by (simp add: ln_div ln_sqrt)

text \<open>
  \<^bold>\<open>C7\<close>: the analytical marginal is a function of \<open>(x2, x3)\<close> and the configured
  \<open>y\<close>, \<open>sig\<close>, \<open>sig_e\<close> alone.  With \<open>sigma = sig\<close>, \<open>sigma_e = sig_e\<close> (neither zero) and
  \<open>s = x2 + x3\<close> it returns
  \<open>-0.5*log(2*pi*sigma^2) - 0.5*log(2*pi*sigma_e^2) - s^2/(2*sigma_e^2) - y^2/(2*sigma^2)
   + 0.5*log(pi / (1/(2*sigma^2) + 1/(2*sigma_e^2)))
   + ((y/sigma^2 + s/sigma_e^2)^2) / (4*(1/(2*sigma^2) + 1/(2*sigma_e^2)))\<close>.
\<close>

theorem analytical_closed_form:
  assumes "sig c \<noteq> 0" and "sig_e c \<noteq> 0"
  shows "analytical c x2 x3 =
    Inr (- (1/2) * ln (2 * pi * (sig c) ^ 2) - (1/2) * ln (2 * pi * (sig_e c) ^ 2)
         - (x2 + x3) ^ 2 / (2 * (sig_e c) ^ 2) - (y c) ^ 2 / (2 * (sig c) ^ 2)
         + (1/2) * ln (pi / (1 / (2 * (sig c) ^ 2) + 1 / (2 * (sig_e c) ^ 2)))
         + ((y c / (sig c) ^ 2 + (x2 + x3) / (sig_e c) ^ 2) ^ 2)
             / (4 * (1 / (2 * (sig c) ^ 2) + 1 / (2 * (sig_e c) ^ 2))))"
proof -
  have p1: "0 < 2 * pi * (sig c) ^ 2" using assms by simp
  have p2: "0 < 2 * pi * (sig_e c) ^ 2" using assms by simp
  have p3: "0 < pi / (1 / (2 * (sig c) ^ 2) + 1 / (2 * (sig_e c) ^ 2))"
    using assms by (simp add: add_pos_pos)
  show ?thesis
    unfolding analytical_def Let_def
    using assms
    by (simp only: ln_inv_sqrt [OF p1] ln_inv_sqrt [OF p2] ln_sqrt [OF less_imp_le [OF p3]]
        if_False simp_thms) simp
qed

theorem analytical_closed_form_witness:
  "sig notebook \<noteq> 0 \<and> sig_e notebook \<noteq> 0
   \<and> analytical notebook (3/4) (3/4) =
    Inr (- (1/2) * ln (2 * pi * (sig notebook) ^ 2) - (1/2) * ln (2 * pi * (sig_e notebook) ^ 2)
         - (3/4 + 3/4) ^ 2 / (2 * (sig_e notebook) ^ 2) - (y notebook) ^ 2 / (2 * (sig notebook) ^ 2)
         + (1/2) * ln (pi / (1 / (2 * (sig notebook) ^ 2) + 1 / (2 * (sig_e notebook) ^ 2)))
         + ((y notebook / (sig notebook) ^ 2 + (3/4 + 3/4) / (sig_e notebook) ^ 2) ^ 2)
             / (4 * (1 / (2 * (sig notebook) ^ 2) + 1 / (2 * (sig_e notebook) ^ 2))))"
  using analytical_closed_form [OF notebook_sig, of "3/4" "3/4"] notebook_sig by blast

section \<open>Properties of the grid and the trapezoidal method\<close>

lemma length_concat_blocks:
  assumes "\<And>i. i < n \<Longrightarrow> length (f i) = m"
  shows "length (concat (map f [0..<n])) = n * m"
  using assms by (induction n) simp_all

lemma nth_concat_blocks:
  assumes "\<And>i. i < n \<Longrightarrow> length (f i) = m" and "i < n" and "j < m"
  shows "concat (map f [0..<n]) ! (i * m + j) = f i ! j"
  using assms
proof (induction n)
  case 0
  then show ?case by simp
next
  case (Suc n)
  have len: "length (concat (map f [0..<n])) = n * m"
    using Suc.prems(1) by (intro length_concat_blocks) simp
  show ?case
  proof (cases "i < n")
    case True
    have "i * m + j < n * m"
    proof -
      have "i * m + j < i * m + m" using Suc.prems(3) by simp
      also have "\<dots> = Suc i * m" by simp
      also have "\<dots> \<le> n * m" using True by (intro mult_le_mono1) simp
      finally show ?thesis .
    qed
    then show ?thesis
      using Suc.IH [OF _ True Suc.prems(3)] Suc.prems(1) len by (simp add: nth_append)
  next
    case False
    then have "i = n" using Suc.prems(2) by simp
    then show ?thesis using len by (simp add: nth_append)
  qed
qed

lemma length_flatten3:
  assumes "shape3 A = (n0, n1, n2)"
  shows "length (flatten3 A) = n0 * n1 * n2"
proof -
  have inner: "\<And>i. length (concat (map (\<lambda>j. map (\<lambda>k. el3 A i j k) [0..<n2]) [0..<n1])) = n1 * n2"
    by (rule length_concat_blocks) simp
  show ?thesis
    unfolding flatten3_def assms prod.case
    by (subst length_concat_blocks [where m = "n1 * n2"]) (simp_all add: inner)
qed

lemma nth_flatten3:
  assumes "shape3 A = (n0, n1, n2)" and "i < n0" and "j < n1" and "k < n2"
  shows "flatten3 A ! ((i * n1 + j) * n2 + k) = el3 A i j k"
proof -
  let ?row = "\<lambda>i j. map (\<lambda>k. el3 A i j k) [0..<n2]"
  let ?slab = "\<lambda>i. concat (map (?row i) [0..<n1])"
  have slab_len: "\<And>i. length (?slab i) = n1 * n2"
    by (rule length_concat_blocks) simp
  have jk: "j * n2 + k < n1 * n2"
  proof -
    have "j * n2 + k < j * n2 + n2" using assms(4) by simp
    also have "\<dots> = Suc j * n2" by simp
    also have "\<dots> \<le> n1 * n2" using assms(3) by (intro mult_le_mono1) simp
    finally show ?thesis .
  qed
  have idx: "(i * n1 + j) * n2 + k = i * (n1 * n2) + (j * n2 + k)"
    by (simp add: algebra_simps)
  have "flatten3 A ! ((i * n1 + j) * n2 + k) = ?slab i ! (j * n2 + k)"
    unfolding flatten3_def assms(1) prod.case idx
    by (rule nth_concat_blocks) (simp_all add: slab_len assms(2) jk)
  also have "\<dots> = ?row i j ! k"
    by (rule nth_concat_blocks) (simp_all add: assms(3,4))
  also have "\<dots> = el3 A i j k"
    using assms(4) by simp
  finally show ?thesis .
qed

lemma flat_index_bound:
  assumes "i < n0" and "j < n1" and "k < (n2::nat)"
  shows "(i * n1 + j) * n2 + k < n0 * n1 * n2"
proof -
  have "i * n1 + j < i * n1 + n1" using assms(2) by simp
  also have "\<dots> = Suc i * n1" by simp
  also have "\<dots> \<le> n0 * n1" using assms(1) by (intro mult_le_mono1) simp
  finally have a: "Suc (i * n1 + j) \<le> n0 * n1" by simp
  have "(i * n1 + j) * n2 + k < (i * n1 + j) * n2 + n2" using assms(3) by simp
  also have "\<dots> = Suc (i * n1 + j) * n2" by simp
  also have "\<dots> \<le> (n0 * n1) * n2" using a by (intro mult_le_mono1)
  finally show ?thesis .
qed

lemma length_linspace: "length (linspace a b n) = n"
  by (simp add: linspace_def)

lemma length_lin: "length (lin1 c) = grid_pts c" "length (lin2 c) = grid_pts c"
  "length (lin3 c) = grid_pts c"
  by (simp_all add: lin1_def lin2_def lin3_def length_linspace)

lemma shape_X_g:
  "shape3 (X1_g c) = (grid_pts c, grid_pts c, grid_pts c)"
  "shape3 (X2_g c) = (grid_pts c, grid_pts c, grid_pts c)"
  "shape3 (X3_g c) = (grid_pts c, grid_pts c, grid_pts c)"
  by (simp_all add: X1_g_def X2_g_def X3_g_def meshgrid3_def Let_def length_lin)

lemma el_X_g:
  "el3 (X1_g c) i j k = lin1 c ! j"
  "el3 (X2_g c) i j k = lin2 c ! i"
  "el3 (X3_g c) i j k = lin3 c ! k"
  by (simp_all add: X1_g_def X2_g_def X3_g_def meshgrid3_def Let_def)

lemma length_P_list: "length (P_list c) = grid_pts c * grid_pts c * grid_pts c"
  by (simp add: P_list_def length_flatten3 [OF shape_X_g(1)] length_flatten3 [OF shape_X_g(2)]
      length_flatten3 [OF shape_X_g(3)])

lemma nth_P_list:
  assumes "i < grid_pts c" and "j < grid_pts c" and "k < grid_pts c"
  shows "P_list c ! ((i * grid_pts c + j) * grid_pts c + k)
           = density c (lin1 c ! j) (lin2 c ! i) (lin3 c ! k)"
proof -
  let ?n = "grid_pts c"
  let ?m = "(i * ?n + j) * ?n + k"
  have m: "?m < ?n * ?n * ?n" using assms by (rule flat_index_bound)
  have f1: "flatten3 (X1_g c) ! ?m = lin1 c ! j"
    using nth_flatten3 [OF shape_X_g(1) assms] by (simp add: el_X_g)
  have f2: "flatten3 (X2_g c) ! ?m = lin2 c ! i"
    using nth_flatten3 [OF shape_X_g(2) assms] by (simp add: el_X_g)
  have f3: "flatten3 (X3_g c) ! ?m = lin3 c ! k"
    using nth_flatten3 [OF shape_X_g(3) assms] by (simp add: el_X_g)
  show ?thesis
    using m by (simp add: P_list_def length_flatten3 [OF shape_X_g(1)]
        length_flatten3 [OF shape_X_g(2)] length_flatten3 [OF shape_X_g(3)] f1 f2 f3)
qed

lemma density_field_eq:
  "density_field c = Inr \<lparr> shape3 = (grid_pts c, grid_pts c, grid_pts c),
     el3 = (\<lambda>i j k. P_list c ! ((i * grid_pts c + j) * grid_pts c + k)) \<rparr>"
  by (simp add: density_field_def reshape3_def shape_X_g length_P_list)


lemma sum_list_map_cong:
  assumes "\<And>x. x \<in> set xs \<Longrightarrow> f x = g x"
  shows "sum_list (map f xs) = sum_list (map g xs)"
  using assms by (induction xs) simp_all

lemma marginal_23_eq:
  "\<exists>B. marginal_23 c = Inr B \<and> shape2 B = (grid_pts c, grid_pts c)
     \<and> (\<forall>a<grid_pts c. \<forall>b<grid_pts c.
          el2 B a b = trapezoid_rule (\<lambda>x1. density c x1 (lin2 c ! b) (lin3 c ! a)) (lin1 c))"
proof -
  let ?n = "grid_pts c"
  let ?A = "\<lparr> shape3 = (?n, ?n, ?n),
     el3 = (\<lambda>i j k. P_list c ! ((i * ?n + j) * ?n + k)) \<rparr>"
  let ?B = "\<lparr> shape2 = (?n, ?n),
     el2 = (\<lambda>a b. sum_list (map (\<lambda>j. (el3 (X1_g c) a (j + 1) b - el3 (X1_g c) a j b)
                * (el3 (transpose3 ?A) a (j + 1) b + el3 (transpose3 ?A) a j b) / 2)
                [0..<?n - 1])) \<rparr>"
  have B: "marginal_23 c = Inr ?B"
    by (simp add: marginal_23_def density_field_eq trapezoid3_axis1_def transpose3_def shape_X_g)
  have "el2 ?B a b = trapezoid_rule (\<lambda>x1. density c x1 (lin2 c ! b) (lin3 c ! a)) (lin1 c)"
    if "a < ?n" and "b < ?n" for a b
  proof -
    have "sum_list (map (\<lambda>j. (el3 (X1_g c) a (j + 1) b - el3 (X1_g c) a j b)
                * (el3 (transpose3 ?A) a (j + 1) b + el3 (transpose3 ?A) a j b) / 2)
                [0..<?n - 1])
        = sum_list (map (\<lambda>j. (lin1 c ! (j + 1) - lin1 c ! j)
                * (density c (lin1 c ! (j + 1)) (lin2 c ! b) (lin3 c ! a)
                   + density c (lin1 c ! j) (lin2 c ! b) (lin3 c ! a)) / 2) [0..<?n - 1])"
    proof (rule sum_list_map_cong)
      fix j assume "j \<in> set [0..<?n - 1]"
      then have j: "j < ?n" "j + 1 < ?n" by auto
      show "(el3 (X1_g c) a (j + 1) b - el3 (X1_g c) a j b)
                * (el3 (transpose3 ?A) a (j + 1) b + el3 (transpose3 ?A) a j b) / 2
          = (lin1 c ! (j + 1) - lin1 c ! j)
                * (density c (lin1 c ! (j + 1)) (lin2 c ! b) (lin3 c ! a)
                   + density c (lin1 c ! j) (lin2 c ! b) (lin3 c ! a)) / 2"
        using nth_P_list [OF that(2) j(1) that(1)] nth_P_list [OF that(2) j(2) that(1)]
        by (simp add: el_X_g transpose3_def)
    qed
    then show ?thesis by (simp add: trapezoid_rule_def length_lin)
  qed
  then show ?thesis using B by (intro exI [of _ ?B]) simp
qed

lemma marginal_3_eq:
  "\<exists>C. marginal_3 c = Inr C \<and> length C = grid_pts c
     \<and> (\<forall>a<grid_pts c. C ! a =
          trapezoid_rule (\<lambda>x2. trapezoid_rule (\<lambda>x1. density c x1 x2 (lin3 c ! a)) (lin1 c))
            (lin2 c))"
proof -
  let ?n = "grid_pts c"
  obtain B where B: "marginal_23 c = Inr B" "shape2 B = (?n, ?n)"
    "\<And>a b. a < ?n \<Longrightarrow> b < ?n \<Longrightarrow>
       el2 B a b = trapezoid_rule (\<lambda>x1. density c x1 (lin2 c ! b) (lin3 c ! a)) (lin1 c)"
    using marginal_23_eq [of c] by blast
  let ?C = "map (\<lambda>a. sum_list (map (\<lambda>j. (el2 (X2_c c) a (j + 1) - el2 (X2_c c) a j)
                * (el2 B a (j + 1) + el2 B a j) / 2) [0..<?n - 1])) [0..<?n]"
  have shape: "shape2 (X2_c c) = (?n, ?n)"
    by (simp add: X2_c_def meshgrid2_def Let_def length_lin)
  have el: "\<And>a j. el2 (X2_c c) a j = lin2 c ! j"
    by (simp add: X2_c_def meshgrid2_def Let_def)
  have C: "marginal_3 c = Inr ?C"
    by (simp add: marginal_3_def B(1,2) trapezoid2_axis1_def shape)
  have "?C ! a = trapezoid_rule (\<lambda>x2. trapezoid_rule (\<lambda>x1. density c x1 x2 (lin3 c ! a)) (lin1 c))
            (lin2 c)" if "a < ?n" for a
  proof -
    have "sum_list (map (\<lambda>j. (el2 (X2_c c) a (j + 1) - el2 (X2_c c) a j)
                * (el2 B a (j + 1) + el2 B a j) / 2) [0..<?n - 1])
      = sum_list (map (\<lambda>j. (lin2 c ! (j + 1) - lin2 c ! j)
           * (trapezoid_rule (\<lambda>x1. density c x1 (lin2 c ! (j + 1)) (lin3 c ! a)) (lin1 c)
              + trapezoid_rule (\<lambda>x1. density c x1 (lin2 c ! j) (lin3 c ! a)) (lin1 c)) / 2)
           [0..<?n - 1])"
    proof (rule sum_list_map_cong)
      fix j assume "j \<in> set [0..<?n - 1]"
      then have j: "j < ?n" "j + 1 < ?n" by auto
      show "(el2 (X2_c c) a (j + 1) - el2 (X2_c c) a j) * (el2 B a (j + 1) + el2 B a j) / 2
        = (lin2 c ! (j + 1) - lin2 c ! j)
           * (trapezoid_rule (\<lambda>x1. density c x1 (lin2 c ! (j + 1)) (lin3 c ! a)) (lin1 c)
              + trapezoid_rule (\<lambda>x1. density c x1 (lin2 c ! j) (lin3 c ! a)) (lin1 c)) / 2"
        using B(3) [OF that j(1)] B(3) [OF that j(2)] by (simp add: el)
    qed
    then show ?thesis
      using that by (simp add: trapezoid_rule_def [of _ "lin2 c"] length_lin)
  qed
  then show ?thesis using C by (intro exI [of _ ?C]) simp
qed

lemma P_E_trapz_eq: "P_E_trapz c = Inr (nested_trapezoid c)"
proof -
  let ?n = "grid_pts c"
  obtain C where C: "marginal_3 c = Inr C" "length C = ?n"
    "\<And>a. a < ?n \<Longrightarrow> C ! a =
          trapezoid_rule (\<lambda>x2. trapezoid_rule (\<lambda>x1. density c x1 x2 (lin3 c ! a)) (lin1 c))
            (lin2 c)"
    using marginal_3_eq [of c] by blast
  have "sum_list (map (\<lambda>j. (lin3 c ! (j + 1) - lin3 c ! j) * (C ! (j + 1) + C ! j) / 2)
           [0..<?n - 1])
     = sum_list (map (\<lambda>j. (lin3 c ! (j + 1) - lin3 c ! j)
         * (trapezoid_rule (\<lambda>x2. trapezoid_rule (\<lambda>x1. density c x1 x2 (lin3 c ! (j + 1)))
              (lin1 c)) (lin2 c)
            + trapezoid_rule (\<lambda>x2. trapezoid_rule (\<lambda>x1. density c x1 x2 (lin3 c ! j))
              (lin1 c)) (lin2 c)) / 2) [0..<?n - 1])"
  proof (rule sum_list_map_cong)
    fix j assume "j \<in> set [0..<?n - 1]"
    then have j: "j < ?n" "j + 1 < ?n" by auto
    show "(lin3 c ! (j + 1) - lin3 c ! j) * (C ! (j + 1) + C ! j) / 2
      = (lin3 c ! (j + 1) - lin3 c ! j)
         * (trapezoid_rule (\<lambda>x2. trapezoid_rule (\<lambda>x1. density c x1 x2 (lin3 c ! (j + 1)))
              (lin1 c)) (lin2 c)
            + trapezoid_rule (\<lambda>x2. trapezoid_rule (\<lambda>x1. density c x1 x2 (lin3 c ! j))
              (lin1 c)) (lin2 c)) / 2"
      using C(3) [OF j(1)] C(3) [OF j(2)] by simp
  qed
  then show ?thesis
    by (simp add: P_E_trapz_def C(1,2) trapezoid1_def length_linspace nested_trapezoid_def
        trapezoid_rule_def [of _ "lin3 c"] length_lin lin3_def [symmetric])
qed

text \<open>
  \<^bold>\<open>C4\<close>: the normalising constant \<^verbatim>\<open>P_E_trapz\<close> is the nested one-dimensional
  trapezoidal rule over the three axes of the density field: along the \<open>x1\<close> axis
  against the \<open>x1\<close> coordinates, then the resulting two-dimensional field along the \<open>x2\<close>
  axis against the \<open>x2\<close> coordinates, then the resulting array along the \<open>x3\<close> axis
  against the \<open>x3\<close> coordinates, each set of coordinates being the \<^verbatim>\<open>linspace\<close> of its
  axis.  It holds for every configuration with nonzero \<^verbatim>\<open>sig\<close> and \<^verbatim>\<open>sig_e\<close>, the
  notebook's 100 points per axis included.
\<close>

theorem P_E_trapz_nested:
  assumes "sig c \<noteq> 0" and "sig_e c \<noteq> 0"
  shows "P_E_trapz c = Inr (nested_trapezoid c)"
  by (rule P_E_trapz_eq)

theorem P_E_trapz_nested_witness:
  "sig notebook \<noteq> 0 \<and> sig_e notebook \<noteq> 0 \<and> grid_pts notebook = 100
   \<and> P_E_trapz notebook = Inr (nested_trapezoid notebook)"
  using P_E_trapz_nested [OF notebook_sig] notebook_sig by (simp add: notebook_def)

subsection \<open>The density field and the log posterior\<close>

lemma nth_linspace:
  assumes "k < n" and "1 < n"
  shows "linspace a b n ! k = a + real k * ((b - a) / real (n - 1))"
proof (cases "k = n - 1")
  case True
  have "real (n - 1) \<noteq> 0" using assms(2) by simp
  then have "a + real (n - 1) * ((b - a) / real (n - 1)) = b" by simp
  then show ?thesis using assms True by (simp add: linspace_def)
next
  case False
  then show ?thesis using assms by (simp add: linspace_def)
qed

lemma nth_lin_notebook:
  assumes "k < 100"
  shows "lin1 notebook ! k = real k / 33" "lin2 notebook ! k = real k / 33"
    "lin3 notebook ! k = real k / 33"
  using assms by (simp_all add: lin1_def lin2_def lin3_def notebook_def nth_linspace)

lemma density_field_el:
  assumes "i < grid_pts c" and "j < grid_pts c" and "k < grid_pts c"
  shows "\<exists>A. density_field c = Inr A
     \<and> el3 A i j k = density c (el3 (X1_g c) i j k) (el3 (X2_g c) i j k) (el3 (X3_g c) i j k)"
  using nth_P_list [OF assms] by (simp add: density_field_eq el_X_g)

text \<open>
  \<^bold>\<open>C5\<close>, as the claim states it, is false on the boundary of the box.  The grid contains
  the corner \<open>(0, 0, 0)\<close> (index \<open>(0, 0, 0)\<close>).  There \<^verbatim>\<open>log_prob\<close> returns the sentinel,
  while the value stored in the density field is \<open>exp(-11.25)\<close>: the loop over the grid
  has no bounds test.
\<close>

theorem density_field_corner_counterexample:
  "log_prob notebook [el3 (X1_g notebook) 0 0 0, el3 (X2_g notebook) 0 0 0,
       el3 (X3_g notebook) 0 0 0] = Inr sentinel
   \<and> \<not> isl (density_field notebook)
   \<and> el3 (projr (density_field notebook)) 0 0 0 = exp (- (45/4))
   \<and> el3 (projr (density_field notebook)) 0 0 0 \<noteq> exp sentinel"
proof -
  have n: "(0::nat) < grid_pts notebook" by (simp add: notebook_def)
  have pt: "el3 (X1_g notebook) 0 0 0 = 0" "el3 (X2_g notebook) 0 0 0 = 0"
    "el3 (X3_g notebook) 0 0 0 = 0"
    by (simp_all add: el_X_g nth_lin_notebook)
  obtain A where A: "density_field notebook = Inr A"
    "el3 A 0 0 0 = density notebook (el3 (X1_g notebook) 0 0 0) (el3 (X2_g notebook) 0 0 0)
        (el3 (X3_g notebook) 0 0 0)"
    using density_field_el [OF n n n] by blast
  have v: "el3 A 0 0 0 = exp (- (45/4))"
    unfolding A(2) pt by (simp add: density_def notebook_def power2_eq_square)
  have lp: "log_prob notebook [0, 0, 0] = Inr sentinel"
    by (simp add: log_prob_def in_range_count_def)
  have ne: "exp (- (45/4)) \<noteq> exp sentinel"
    by (simp add: sentinel_def)
  show ?thesis using A(1) v lp ne by (simp add: pt)
qed

text \<open>
  \<^bold>\<open>C5\<close>, amended: for every grid point whose three coordinates lie strictly between 0
  and 3, the value stored in the density field is the exponential of \<^verbatim>\<open>log_prob\<close> at
  that point (for nonzero \<^verbatim>\<open>sig\<close> and \<^verbatim>\<open>sig_e\<close>).  Nothing is said about the points on
  the boundary.
\<close>

theorem density_field_interior:
  assumes "sig c \<noteq> 0" and "sig_e c \<noteq> 0"
    and "i < grid_pts c" and "j < grid_pts c" and "k < grid_pts c"
    and "0 < el3 (X1_g c) i j k \<and> el3 (X1_g c) i j k < 3"
    and "0 < el3 (X2_g c) i j k \<and> el3 (X2_g c) i j k < 3"
    and "0 < el3 (X3_g c) i j k \<and> el3 (X3_g c) i j k < 3"
  shows "\<exists>A lp. density_field c = Inr A
     \<and> log_prob c [el3 (X1_g c) i j k, el3 (X2_g c) i j k, el3 (X3_g c) i j k] = Inr lp
     \<and> el3 A i j k = exp lp"
proof -
  obtain A where A: "density_field c = Inr A"
    "el3 A i j k = density c (el3 (X1_g c) i j k) (el3 (X2_g c) i j k) (el3 (X3_g c) i j k)"
    using density_field_el [OF assms(3,4,5)] by blast
  let ?x1 = "el3 (X1_g c) i j k" and ?x2 = "el3 (X2_g c) i j k" and ?x3 = "el3 (X3_g c) i j k"
  have lp: "log_prob c [?x1, ?x2, ?x3]
      = Inr (- ((y c - ?x1) ^ 2) / (2 * sig c) + - ((0 - ?x1 + ?x2 + ?x3) ^ 2) / (2 * sig_e c))"
    using assms(1,2,6,7,8) unfolding log_prob_def in_range_count_three by simp
  have "el3 A i j k
      = exp (- ((y c - ?x1) ^ 2) / (2 * sig c) + - ((0 - ?x1 + ?x2 + ?x3) ^ 2) / (2 * sig_e c))"
    unfolding A(2) density_def by (simp only: exp_add)
  then show ?thesis using A(1) lp by blast
qed


theorem density_field_interior_witness:
  "\<exists>A lp. density_field notebook = Inr A
     \<and> log_prob notebook [el3 (X1_g notebook) 1 1 1, el3 (X2_g notebook) 1 1 1,
           el3 (X3_g notebook) 1 1 1] = Inr lp
     \<and> el3 A 1 1 1 = exp lp"
proof -
  have n: "(1::nat) < grid_pts notebook" by (simp add: notebook_def)
  have pt: "el3 (X1_g notebook) 1 1 1 = 1/33" "el3 (X2_g notebook) 1 1 1 = 1/33"
    "el3 (X3_g notebook) 1 1 1 = 1/33"
    by (simp_all add: el_X_g nth_lin_notebook)
  have in1: "0 < el3 (X1_g notebook) 1 1 1 \<and> el3 (X1_g notebook) 1 1 1 < 3"
    unfolding pt by simp
  have in2: "0 < el3 (X2_g notebook) 1 1 1 \<and> el3 (X2_g notebook) 1 1 1 < 3"
    unfolding pt by simp
  have in3: "0 < el3 (X3_g notebook) 1 1 1 \<and> el3 (X3_g notebook) 1 1 1 < 3"
    unfolding pt by simp
  show ?thesis
    by (rule density_field_interior [OF notebook_sig n n n in1 in2 in3])
qed

section \<open>The analytical marginal against the quadrature\<close>














section \<open>Degenerate configurations\<close>

lemma mcmc_runs:
  assumes "sig c \<noteq> 0" and "sig_e c \<noteq> 0"
  shows "\<exists>st. mcmc c rng = Inr st \<and> length (samp_res st) = 1500000"
proof -
  obtain st ys where "mcmc_loop c rng 1500000 (mcmc_start c) = Inr st"
    "samp_res st = samp_res (mcmc_start c) @ ys" "length ys = 1500000"
    using mcmc_loop_appends [OF assms] by blast
  then show ?thesis by (simp add: mcmc_def mcmc_start_def)
qed

lemma half_rng_raw: "raw_draw (half_rng k)"
  by (simp add: raw_draw_def half_rng_def)

text \<open>
  \<^bold>\<open>C8\<close>, as the claim states it, is false: the notebook has no check of its
  configuration.  With \<open>sig = -0.1\<close> and \<open>a_1 = 3 > b_1 = 0\<close> the quadrature returns a
  value for the normalising constant and the sampler records its 1,500,000 states;
  with \<open>sig_e = -0.0001\<close> the sampler records its 1,500,000 states.  In these runs no
  draw is zero and no value leaves the float range.
\<close>

theorem degenerate_example_runs_counterexample:
  "degenerate degenerate_example
   \<and> P_E_trapz degenerate_example = Inr (nested_trapezoid degenerate_example)
   \<and> \<not> isl (mcmc degenerate_example half_rng)
   \<and> length (samp_res (projr (mcmc degenerate_example half_rng))) = 1500000
   \<and> degenerate negative_sig_e_example
   \<and> \<not> isl (mcmc negative_sig_e_example half_rng)
   \<and> length (samp_res (projr (mcmc negative_sig_e_example half_rng))) = 1500000"
proof -
  have d: "degenerate degenerate_example" "degenerate negative_sig_e_example"
    by (simp_all add: degenerate_def degenerate_example_def negative_sig_e_example_def
        notebook_def)
  have nz: "sig degenerate_example \<noteq> 0" "sig_e degenerate_example \<noteq> 0"
    "sig negative_sig_e_example \<noteq> 0" "sig_e negative_sig_e_example \<noteq> 0"
    by (simp_all add: degenerate_example_def negative_sig_e_example_def notebook_def)
  obtain st where st: "mcmc degenerate_example half_rng = Inr st"
      "length (samp_res st) = 1500000"
    using mcmc_runs [OF nz(1,2)] by blast
  obtain st' where st': "mcmc negative_sig_e_example half_rng = Inr st'"
      "length (samp_res st') = 1500000"
    using mcmc_runs [OF nz(3,4)] by blast
  show ?thesis using d st st' by (simp add: P_E_trapz_eq)
qed

text \<open>
  \<^bold>\<open>C8\<close>, amended: no configuration is rejected before a run.  Take the notebook's
  constants with \<^verbatim>\<open>sig\<close> replaced by any \<open>s\<close> with \<open>0.1 <= |s| <= 10\<close>, \<^verbatim>\<open>sig_e\<close> by any
  \<open>e\<close> with \<open>0.0001 <= |e| <= 1\<close>, and the six bounds by any values in \<open>[0, 3]\<close>; this
  includes degenerate configurations of each kind (\<open>sig <= -0.1\<close>, \<open>sig_e <= -0.0001\<close>,
  a lower bound at or above its upper bound).  For every sequence of raw draws in
  \<open>[0, 1)\<close> the sampler runs its 1,500,000 iterations; and with the notebook's own
  \<^verbatim>\<open>sig_e\<close> the quadrature returns a value for the normalising constant.
\<close>

theorem no_configuration_check:
  assumes "1/10 \<le> \<bar>s\<bar>" and "\<bar>s\<bar> \<le> 10" and "1/10000 \<le> \<bar>e\<bar>" and "\<bar>e\<bar> \<le> 1"
    and "0 \<le> a1 \<and> a1 \<le> 3" and "0 \<le> a2 \<and> a2 \<le> 3" and "0 \<le> a3 \<and> a3 \<le> 3"
    and "0 \<le> b1 \<and> b1 \<le> 3" and "0 \<le> b2 \<and> b2 \<le> 3" and "0 \<le> b3 \<and> b3 \<le> 3"
    and "\<forall>k. raw_draw (rng k)"
  shows "(\<exists>st. mcmc (notebook \<lparr> sig := s, sig_e := e,
                 a_1 := a1, a_2 := a2, a_3 := a3, b_1 := b1, b_2 := b2, b_3 := b3 \<rparr>) rng = Inr st
            \<and> length (samp_res st) = 1500000)
    \<and> (\<exists>Z. P_E_trapz (notebook \<lparr> sig := s,
                 a_1 := a1, a_2 := a2, a_3 := a3, b_1 := b1, b_2 := b2, b_3 := b3 \<rparr>) = Inr Z)"
proof -
  have "s \<noteq> 0" and "e \<noteq> 0"
    using assms(1,3) by auto
  then show ?thesis
    using mcmc_runs [of "notebook \<lparr> sig := s, sig_e := e,
        a_1 := a1, a_2 := a2, a_3 := a3, b_1 := b1, b_2 := b2, b_3 := b3 \<rparr>" rng]
    by (simp add: P_E_trapz_eq)
qed

theorem no_configuration_check_witness:
  "degenerate (notebook \<lparr> sig := - (1/10), sig_e := - (1/10000),
       a_1 := 3, a_2 := 0, a_3 := 0, b_1 := 0, b_2 := 3, b_3 := 3 \<rparr>)
   \<and> (\<exists>st. mcmc (notebook \<lparr> sig := - (1/10), sig_e := - (1/10000),
                 a_1 := 3, a_2 := 0, a_3 := 0, b_1 := 0, b_2 := 3, b_3 := 3 \<rparr>) half_rng = Inr st
          \<and> length (samp_res st) = 1500000)
   \<and> (\<exists>Z. P_E_trapz (notebook \<lparr> sig := - (1/10),
                 a_1 := 3, a_2 := 0, a_3 := 0, b_1 := 0, b_2 := 3, b_3 := 3 \<rparr>) = Inr Z)"
proof -
  have d: "degenerate (notebook \<lparr> sig := - (1/10), sig_e := - (1/10000),
       a_1 := 3, a_2 := 0, a_3 := 0, b_1 := 0, b_2 := 3, b_3 := 3 \<rparr>)"
    by (simp add: degenerate_def notebook_def)
  have raw: "\<forall>k. raw_draw (half_rng k)"
    by (simp add: half_rng_raw)
  have run: "(\<exists>st. mcmc (notebook \<lparr> sig := - (1/10), sig_e := - (1/10000),
                 a_1 := 3, a_2 := 0, a_3 := 0, b_1 := 0, b_2 := 3, b_3 := 3 \<rparr>) half_rng = Inr st
          \<and> length (samp_res st) = 1500000)
   \<and> (\<exists>Z. P_E_trapz (notebook \<lparr> sig := - (1/10),
                 a_1 := 3, a_2 := 0, a_3 := 0, b_1 := 0, b_2 := 3, b_3 := 3 \<rparr>) = Inr Z)"
    by (rule no_configuration_check [OF _ _ _ _ _ _ _ _ _ _ raw]) simp_all
  show ?thesis using d run by blast
qed

end
